theory Spec2Isabelle
  imports Complex_Main "HOL-Library.Multiset" "HOL-Library.Monad_Syntax"
begin

unbundle bit_operations_syntax

section \<open>Volcano heightmap generator (tools/heightmap.py)\<close>

text \<open>
  The generator works on NumPy arrays of floating-point numbers. The embedding takes
  every finite float as a \<^typ>\<open>real\<close> and computes exactly, so rounding is outside
  the model; the one place where the program leaves the finite numbers (the division
  of the normalizer) is modelled by an explicit not-a-number value. Python integers
  are \<^typ>\<open>int\<close>; loop indices, which the source keeps non-negative, are
  \<^typ>\<open>nat\<close>.
\<close>

subsection \<open>Parameters\<close>

text \<open>
  \<^verbatim>\<open>
  VOLCANO_RADIUS = 0.4
  VOLCANO_HEIGHT = 0.7
  CALDERA_RADIUS = 0.12
  CALDERA_DEPTH = 0.3
  RADIAL_NOISE_SCALE = 20.0
  RADIAL_NOISE_STRENGTH = 0.08
  ISLAND_FALLOFF_STRENGTH = 2.5
  ISLAND_FALLOFF_START = 0.2
  EROSION_ITERATIONS = 50
  TALUS_ANGLE = 0.015
  \<close>
  The module's constants. The command line gives the width, the height and the seed
  only.
\<close>

definition VOLCANO_RADIUS :: real where
  "VOLCANO_RADIUS = 0.4"

definition VOLCANO_HEIGHT :: real where
  "VOLCANO_HEIGHT = 0.7"

definition CALDERA_RADIUS :: real where
  "CALDERA_RADIUS = 0.12"

definition CALDERA_DEPTH :: real where
  "CALDERA_DEPTH = 0.3"

definition RADIAL_NOISE_SCALE :: real where
  "RADIAL_NOISE_SCALE = 20"

definition RADIAL_NOISE_STRENGTH :: real where
  "RADIAL_NOISE_STRENGTH = 0.08"

definition ISLAND_FALLOFF_STRENGTH :: real where
  "ISLAND_FALLOFF_STRENGTH = 2.5"

definition ISLAND_FALLOFF_START :: real where
  "ISLAND_FALLOFF_START = 0.2"

definition EROSION_ITERATIONS :: int where
  "EROSION_ITERATIONS = 50"

definition TALUS_ANGLE :: real where
  "TALUS_ANGLE = 0.015"

subsection \<open>Elevation grids\<close>

text \<open>
  A two-dimensional array \<open>world\<close> is the list of its rows, \<open>world[y][x]\<close> is
  \<open>cell world y x\<close> and \<open>world.shape\<close> is the pair (height, width). NumPy arrays
  are rectangular, which is the predicate \<open>rect\<close>.
\<close>

type_synonym grid = "real list list"

definition shape :: "'a list list \<Rightarrow> nat \<times> nat" where
  "shape world = (length world, case world of [] \<Rightarrow> 0 | row # _ \<Rightarrow> length row)"

definition rect :: "'a list list \<Rightarrow> bool" where
  "rect world = list_all (\<lambda>row. length row = snd (shape world)) world"

definition cell :: "'a list list \<Rightarrow> nat \<Rightarrow> nat \<Rightarrow> 'a" where
  "cell world y x = world ! y ! x"

definition set_cell :: "'a list list \<Rightarrow> nat \<Rightarrow> nat \<Rightarrow> 'a \<Rightarrow> 'a list list" where
  "set_cell world y x v = world[y := (world ! y)[x := v]]"


subsection \<open>Thermal erosion\<close>

text \<open>
  \<^verbatim>\<open>
  def apply_thermal_erosion(world, iterations, talus):
      height, width = world.shape
      for _ in prange(iterations):
          for y in range(1, height - 1):
              for x in range(1, width - 1):
                  center_h = world[y][x]
                  neighbors = [(y, x-1), (y, x+1), (y-1, x), (y+1, x)]
                  for ny, nx in neighbors:
                      diff = center_h - world[ny][nx]
                      if diff > talus:
                          move_amount = diff / 4.0
                          world[y][x] -= move_amount
                          world[ny][nx] += move_amount
      return world
  \<close>
  The array is updated in place; the model passes it through the loops. \<open>transfer\<close>
  is the body of the innermost loop, \<open>erode_cell\<close> the visit of one centre cell
  (\<open>center_h\<close> is read once, before the four neighbours), \<open>erode_row\<close> the loop
  over \<open>x\<close>, \<open>sweep\<close> the loop over \<open>y\<close>, and the outer loop runs
  \<open>iterations\<close> sweeps one after the other, as the loop reads when it is run in
  order (a range over a count that is zero or negative is empty). The function has
  no \<open>raise\<close> and, on a rectangular array, no index out of range: its model is
  total.
\<close>

definition transfer :: "real \<Rightarrow> real \<Rightarrow> nat \<Rightarrow> nat \<Rightarrow> grid \<Rightarrow> nat \<times> nat \<Rightarrow> grid" where
  "transfer talus center_h y x world n =
     (case n of (ny, nx) \<Rightarrow>
        let diff = center_h - cell world ny nx in
        if diff > talus then
          let move_amount = diff / 4;
              world1 = set_cell world y x (cell world y x - move_amount)
          in set_cell world1 ny nx (cell world1 ny nx + move_amount)
        else world)"

definition neighbors :: "nat \<Rightarrow> nat \<Rightarrow> (nat \<times> nat) list" where
  "neighbors y x = [(y, x - 1), (y, x + 1), (y - 1, x), (y + 1, x)]"

definition erode_cell :: "real \<Rightarrow> nat \<Rightarrow> grid \<Rightarrow> nat \<Rightarrow> grid" where
  "erode_cell talus y world x =
     (let center_h = cell world y x
      in foldl (transfer talus center_h y x) world (neighbors y x))"

definition erode_row :: "real \<Rightarrow> nat \<Rightarrow> grid \<Rightarrow> nat \<Rightarrow> grid" where
  "erode_row talus width world y = foldl (erode_cell talus y) world [1 ..< width - 1]"

definition sweep :: "real \<Rightarrow> nat \<Rightarrow> nat \<Rightarrow> grid \<Rightarrow> grid" where
  "sweep talus height width world = foldl (erode_row talus width) world [1 ..< height - 1]"

definition apply_thermal_erosion :: "grid \<Rightarrow> int \<Rightarrow> real \<Rightarrow> grid" where
  "apply_thermal_erosion world iterations talus =
     (case shape world of (height, width) \<Rightarrow>
        (sweep talus height width ^^ nat iterations) world)"

subsection \<open>Gradient noise\<close>

text \<open>
  \<^verbatim>\<open>
  def fade(t):
      return t * t * t * (t * (t * 6 - 15) + 10)
  def lerp(t, a, b):
      return a + t * (b - a)
  def grad(hash_val, x, y):
      h = hash_val & 15
      u = x if h < 8 else y
      v = y if h < 4 else (x if h in (12, 14) else 0)
      return (u if (h & 1) == 0 else -u) + (v if (h & 2) == 0 else -v)
  \<close>
\<close>

definition fade :: "real \<Rightarrow> real" where
  "fade t = t * t * t * (t * (t * 6 - 15) + 10)"

definition lerp :: "real \<Rightarrow> real \<Rightarrow> real \<Rightarrow> real" where
  "lerp t a b = a + t * (b - a)"

definition grad :: "int \<Rightarrow> real \<Rightarrow> real \<Rightarrow> real" where
  "grad hash_val x y =
     (let h = hash_val AND 15;
          u = (if h < 8 then x else y);
          v = (if h < 4 then y else (if h = 12 \<or> h = 14 then x else 0))
      in (if h AND 1 = 0 then u else - u) + (if h AND 2 = 0 then v else - v))"

text \<open>
  Python's \<open>int(x)\<close> of a float drops the fractional part: it rounds toward zero.
  Indexing \<open>p[i]\<close> counts a negative index from the end and raises IndexError out
  of range, which is the value \<open>None\<close>.
\<close>

definition py_int :: "real \<Rightarrow> int" where
  "py_int x = (if 0 \<le> x then \<lfloor>x\<rfloor> else \<lceil>x\<rceil>)"

definition getitem :: "'a list \<Rightarrow> int \<Rightarrow> 'a option" where
  "getitem p i =
     (if 0 \<le> i \<and> i < int (length p) then Some (p ! nat i)
      else if - int (length p) \<le> i \<and> i < 0 then Some (p ! nat (int (length p) + i))
      else None)"

text \<open>
  \<^verbatim>\<open>
  def perlin_noise(x, y, perm_table):
      xi, yi = int(x) & 255, int(y) & 255
      xf, yf = x - int(x), y - int(y)
      u, v = fade(xf), fade(yf)
      p = perm_table
      aa, ab = p[p[xi] + yi], p[p[xi] + yi + 1]
      ba, bb = p[p[xi + 1] + yi], p[p[xi + 1] + yi + 1]
      g1 = grad(aa, xf, yf)
      g2 = grad(ba, xf - 1, yf)
      g3 = grad(ab, xf, yf - 1)
      g4 = grad(bb, xf - 1, yf - 1)
      return lerp(v, lerp(u, g1, g2), lerp(u, g3, g4))
  \<close>
  \<open>lattice_index\<close> and \<open>lattice_offset\<close> are the two expressions of the first two
  lines, for one coordinate.
\<close>

definition lattice_index :: "real \<Rightarrow> int" where
  "lattice_index x = py_int x AND 255"

definition lattice_offset :: "real \<Rightarrow> real" where
  "lattice_offset x = x - of_int (py_int x)"

definition perlin_noise :: "real \<Rightarrow> real \<Rightarrow> int list \<Rightarrow> real option" where
  "perlin_noise x y perm_table =
     (let xi = lattice_index x; yi = lattice_index y;
          xf = lattice_offset x; yf = lattice_offset y;
          u = fade xf; v = fade yf;
          p = perm_table
      in do {
        pxi \<leftarrow> getitem p xi;
        aa \<leftarrow> getitem p (pxi + yi);
        ab \<leftarrow> getitem p (pxi + yi + 1);
        pxi1 \<leftarrow> getitem p (xi + 1);
        ba \<leftarrow> getitem p (pxi1 + yi);
        bb \<leftarrow> getitem p (pxi1 + yi + 1);
        let g1 = grad aa xf yf;
            g2 = grad ba (xf - 1) yf;
            g3 = grad ab xf (yf - 1);
            g4 = grad bb (xf - 1) (yf - 1)
        in Some (lerp v (lerp u g1 g2) (lerp u g3 g4))
      })"

subsection \<open>Permutation table\<close>

text \<open>
  \<^verbatim>\<open>
  p = np.arange(256, dtype=np.int32)
  rng = np.random.RandomState(seed)
  rng.shuffle(p)
  perm_table = np.stack((p, p)).flatten()
  \<close>
  \<open>np.random.RandomState\<close> takes an integer seed between 0 and \<open>2**32 - 1\<close> and
  raises ValueError for any other integer. The generator it returns and its
  \<open>shuffle\<close> are NumPy's and are not modelled: \<open>mt_shuffle seed\<close> stands for the
  in-place shuffle of the generator seeded with \<open>seed\<close>, as the function from the
  old contents of the array to the new. Stacking \<open>p\<close> on itself and flattening row
  by row gives \<open>p\<close> followed by \<open>p\<close>.
\<close>

definition arange :: "nat \<Rightarrow> int list" where
  "arange n = map int [0 ..< n]"

definition RandomState :: "(int \<Rightarrow> int list \<Rightarrow> int list) \<Rightarrow> int \<Rightarrow> (int list \<Rightarrow> int list) option" where
  "RandomState mt_shuffle seed =
     (if 0 \<le> seed \<and> seed \<le> 2 ^ 32 - 1 then Some (mt_shuffle seed) else None)"

definition build_perm_table :: "(int \<Rightarrow> int list \<Rightarrow> int list) \<Rightarrow> int \<Rightarrow> int list option" where
  "build_perm_table mt_shuffle seed =
     (let p = arange 256 in do {
        shuffle \<leftarrow> RandomState mt_shuffle seed;
        let p = shuffle p;
        Some (concat [p, p])
      })"

text \<open>
  A valid table has 512 entries: a permutation of \<open>0..255\<close> (256 entries whose set
  is \<open>{0..255}\<close>), followed by the same 256 entries.
\<close>

definition valid_table :: "int list \<Rightarrow> bool" where
  "valid_table p \<longleftrightarrow> length p = 512 \<and> set (take 256 p) = {0 .. 255} \<and> drop 256 p = take 256 p"

text \<open>The table of the shuffle that moves nothing.\<close>

definition identity_table :: "int list" where
  "identity_table = arange 256 @ arange 256"

subsection \<open>Island falloff\<close>

text \<open>
  \<^verbatim>\<open>
  x_coords = np.linspace(-1, 1, args.width)
  y_coords = np.linspace(-1, 1, args.height)
  xx, yy = np.meshgrid(x_coords, y_coords)
  distance_from_center = np.sqrt(xx**2 + yy**2)
  falloff_map = 1.0 - np.power(np.maximum(0, (distance_from_center - ISLAND_FALLOFF_START)
                                   / (1.0 - ISLAND_FALLOFF_START)), ISLAND_FALLOFF_STRENGTH)
  final_terrain = eroded_terrain * falloff_map
  \<close>
  The arrays are computed cell by cell; the definitions are the value of one cell.
  The coordinates of a grid run from \<open>-1\<close> to \<open>1\<close> on both axes, so a corner cell
  has \<open>xx\<close> and \<open>yy\<close> in \<open>{-1, 1}\<close>. The base of the power is never negative,
  where NumPy's power and \<open>powr\<close> agree (both give \<open>0\<close> at base \<open>0\<close>).
\<close>

definition distance_from_center :: "real \<Rightarrow> real \<Rightarrow> real" where
  "distance_from_center xx yy = sqrt (xx\<^sup>2 + yy\<^sup>2)"

definition falloff_map :: "real \<Rightarrow> real" where
  "falloff_map d =
     1 - (max 0 ((d - ISLAND_FALLOFF_START) / (1 - ISLAND_FALLOFF_START))) powr ISLAND_FALLOFF_STRENGTH"

subsection \<open>Normalizer\<close>

text \<open>
  \<^verbatim>\<open>
  final_terrain_normalized = 255 * (final_terrain - final_terrain.min())
                                 / (final_terrain.max() - final_terrain.min())
  \<close>
  \<open>min()\<close> and \<open>max()\<close> of an array with no element raise ValueError, the value
  \<open>None\<close>. The division is the floating-point one, which does not raise: a finite
  number divided by zero is an infinity, and zero divided by zero is not a number.
\<close>

datatype fval = Finite real | PosInf | NegInf | NaN

definition np_divide :: "real \<Rightarrow> real \<Rightarrow> fval" where
  "np_divide a b =
     (if b \<noteq> 0 then Finite (a / b)
      else if a = 0 then NaN else if 0 < a then PosInf else NegInf)"

definition amin :: "grid \<Rightarrow> real option" where
  "amin a = (case concat a of [] \<Rightarrow> None | v # vs \<Rightarrow> Some (fold min vs v))"

definition amax :: "grid \<Rightarrow> real option" where
  "amax a = (case concat a of [] \<Rightarrow> None | v # vs \<Rightarrow> Some (fold max vs v))"

definition normalize :: "grid \<Rightarrow> fval list list option" where
  "normalize final_terrain = do {
     lo \<leftarrow> amin final_terrain;
     hi \<leftarrow> amax final_terrain;
     Some (map (map (\<lambda>v. np_divide (255 * (v - lo)) (hi - lo))) final_terrain)
   }"

subsection \<open>Radial detail\<close>

text \<open>
  \<^verbatim>\<open>
  def generate_radial_noise(width, height, scale, strength, perm_table):
      details = np.zeros((height, width), dtype=np.float32)
      center_x, center_y = width / 2, height / 2
      for y in prange(height):
          for x in range(width):
              dx, dy = x - center_x, y - center_y
              distance_from_center = math.sqrt(dx*dx + dy*dy)
              angle = math.atan2(dy, dx)
              noise_val = perlin_noise(
                  distance_from_center / (scale * 2.0),
                  angle * scale,
                  perm_table
              )
              details[y, x] = noise_val * strength
      return details
  \<close>
  \<open>np.zeros\<close> raises ValueError for a negative dimension. \<open>atan2\<close> is the angle of
  the point \<open>(x, y)\<close> in \<open>(-pi, pi]\<close>, and 0 at the origin. Each cell is computed on
  its own; an exception in one of them is the result of the whole.
\<close>

definition atan2 :: "real \<Rightarrow> real \<Rightarrow> real" where
  "atan2 y x =
     (if 0 < x then arctan (y / x)
      else if x < 0 then (if 0 \<le> y then arctan (y / x) + pi else arctan (y / x) - pi)
      else if 0 < y then pi / 2 else if y < 0 then - (pi / 2) else 0)"

definition radial_noise_cell :: "int \<Rightarrow> int \<Rightarrow> real \<Rightarrow> real \<Rightarrow> int list \<Rightarrow> nat \<Rightarrow> nat \<Rightarrow> real option" where
  "radial_noise_cell width height scale strength perm_table y x =
     (let center_x = real_of_int width / 2; center_y = real_of_int height / 2;
          dx = real x - center_x; dy = real y - center_y;
          distance = sqrt (dx * dx + dy * dy);
          angle = atan2 dy dx
      in do {
        noise_val \<leftarrow> perlin_noise (distance / (scale * 2)) (angle * scale) perm_table;
        Some (noise_val * strength)
      })"

definition generate_radial_noise :: "int \<Rightarrow> int \<Rightarrow> real \<Rightarrow> real \<Rightarrow> int list \<Rightarrow> grid option" where
  "generate_radial_noise width height scale strength perm_table =
     (if height < 0 \<or> width < 0 then None
      else those (map (\<lambda>y. those (map (radial_noise_cell width height scale strength perm_table y)
                                      [0 ..< nat width]))
                      [0 ..< nat height]))"

subsection \<open>The pipeline\<close>

text \<open>
  \<^verbatim>\<open>
  def main():
      ...
      args = parser.parse_args()
      seed = args.seed if args.seed is not None else random.randint(0, 10000)
      x_coords = np.linspace(-1, 1, args.width)
      y_coords = np.linspace(-1, 1, args.height)
      xx, yy = np.meshgrid(x_coords, y_coords)
      distance_from_center = np.sqrt(xx**2 + yy**2)
      main_cone = VOLCANO_HEIGHT * (1.0 - np.power(distance_from_center / VOLCANO_RADIUS, 2.0))
      main_cone = np.maximum(0, main_cone)
      caldera = CALDERA_DEPTH * (1.0 - np.power(distance_from_center / CALDERA_RADIUS, 2.0))
      caldera = np.maximum(0, caldera)
      base_volcano_shape = np.maximum(0, main_cone - caldera)
      p = np.arange(256, dtype=np.int32)
      rng = np.random.RandomState(seed)
      rng.shuffle(p)
      perm_table = np.stack((p, p)).flatten()
      details = generate_radial_noise(args.width, args.height, RADIAL_NOISE_SCALE,
                                      RADIAL_NOISE_STRENGTH, perm_table)
      combined_terrain = base_volcano_shape + base_volcano_shape * details
      eroded_terrain = apply_thermal_erosion(combined_terrain.copy(), EROSION_ITERATIONS,
                                             TALUS_ANGLE)
      falloff_map = ...
      final_terrain = eroded_terrain * falloff_map
      final_terrain_normalized = 255 * (final_terrain - final_terrain.min())
                                     / (final_terrain.max() - final_terrain.min())
      ...
  \<close>
  The arguments are the parsed width, height and seed. The first statement that can
  raise is \<open>np.linspace\<close>, with a negative number of samples; with none it returns
  the empty array, with one the start alone. \<open>final_terrain\<close> is the pipeline up
  to the island falloff, \<open>main\<close> adds the normalizer; the conversion to bytes and the
  image file are left out.
\<close>

definition linspace :: "real \<Rightarrow> real \<Rightarrow> int \<Rightarrow> real list option" where
  "linspace start stop num =
     (if num < 0 then None
      else if num = 1 then Some [start]
      else Some (map (\<lambda>i. start + real i * ((stop - start) / real_of_int (num - 1)))
                     [0 ..< nat num]))"

definition grid_map2 :: "(real \<Rightarrow> real \<Rightarrow> real) \<Rightarrow> grid \<Rightarrow> grid \<Rightarrow> grid" where
  "grid_map2 f a b = map2 (map2 f) a b"

definition final_terrain ::
    "(int \<Rightarrow> int list \<Rightarrow> int list) \<Rightarrow> int \<Rightarrow> int \<Rightarrow> int \<Rightarrow> grid option" where
  "final_terrain mt_shuffle width height seed = do {
     x_coords \<leftarrow> linspace (- 1) 1 width;
     y_coords \<leftarrow> linspace (- 1) 1 height;
     let distance = map (\<lambda>yy. map (\<lambda>xx. distance_from_center xx yy) x_coords) y_coords;
     let main_cone = map (map (\<lambda>d. max 0 (VOLCANO_HEIGHT * (1 - (d / VOLCANO_RADIUS)\<^sup>2)))) distance;
     let caldera = map (map (\<lambda>d. max 0 (CALDERA_DEPTH * (1 - (d / CALDERA_RADIUS)\<^sup>2)))) distance;
     let base_volcano_shape = grid_map2 (\<lambda>c k. max 0 (c - k)) main_cone caldera;
     perm_table \<leftarrow> build_perm_table mt_shuffle seed;
     details \<leftarrow> generate_radial_noise width height RADIAL_NOISE_SCALE RADIAL_NOISE_STRENGTH
                  perm_table;
     let combined_terrain = grid_map2 (\<lambda>b d. b + b * d) base_volcano_shape details;
     let eroded_terrain = apply_thermal_erosion combined_terrain EROSION_ITERATIONS TALUS_ANGLE;
     let falloff = map (map falloff_map) distance;
     Some (grid_map2 (*) eroded_terrain falloff)
   }"

definition main ::
    "(int \<Rightarrow> int list \<Rightarrow> int list) \<Rightarrow> int \<Rightarrow> int \<Rightarrow> int \<Rightarrow> fval list list option" where
  "main mt_shuffle width height seed = do {
     terrain \<leftarrow> final_terrain mt_shuffle width height seed;
     normalize terrain
   }"

subsection \<open>Example grids\<close>

text \<open>
  A single raised interior cell, and a grid of three interior cells inside a high
  rim, where the first interior cell stands far above the other two.
\<close>

definition peak_grid :: grid where
  "peak_grid = [[0, 0, 0], [0, 1, 0], [0, 0, 0]]"

definition ridge_grid :: grid where
  "ridge_grid = [[100, 100, 100, 100, 100], [100, 17, 1, 0, 100], [100, 100, 100, 100, 100]]"

definition flat_grid :: grid where
  "flat_grid = [[1, 1], [1, 1]]"

section \<open>Properties of the thermal erosion\<close>

subsection \<open>Array updates\<close>

lemma map_length_set_cell: "map length (set_cell world y x v) = map length world"
proof -
  have "(map length world)[y := length (world ! y)] = map length world"
    by (induction world arbitrary: y) (auto split: nat.splits)
  then show ?thesis by (simp add: set_cell_def map_update)
qed

lemma shape_map_length:
  "shape world = (length (map length world), case map length world of [] \<Rightarrow> 0 | n # _ \<Rightarrow> n)"
  by (simp add: shape_def split: list.splits)

lemma rect_map_length: "rect world = list_all (\<lambda>n. n = snd (shape world)) (map length world)"
  by (simp add: rect_def list_all_iff)

lemma same_lengths_shape: "map length w' = map length w \<Longrightarrow> shape w' = shape w"
  by (simp add: shape_map_length)

lemma same_lengths_rect: "map length w' = map length w \<Longrightarrow> rect w' = rect w"
  by (simp add: rect_map_length shape_map_length)

lemma same_lengths_row:
  assumes "map length w' = map length w" "y < length w"
  shows "length w' = length w" "length (w' ! y) = length (w ! y)"
proof -
  show l: "length w' = length w" using assms(1) by (rule map_eq_imp_length_eq)
  have "map length w' ! y = map length w ! y" using assms(1) by simp
  then show "length (w' ! y) = length (w ! y)" using assms(2) l by simp
qed

lemma rect_row_length:
  "rect world \<Longrightarrow> shape world = (h, wd) \<Longrightarrow> y < h \<Longrightarrow> length (world ! y) = wd"
  by (auto simp add: rect_def shape_def list_all_length)



lemma cell_set_cell:
  assumes "y < length world" "x < length (world ! y)"
  shows "cell (set_cell world y x v) y' x' = (if y' = y \<and> x' = x then v else cell world y' x')"
  using assms by (auto simp add: set_cell_def cell_def nth_list_update)

lemma foldl_invariant:
  assumes "P s" and "\<And>s a. a \<in> set xs \<Longrightarrow> P s \<Longrightarrow> P (f s a)"
  shows "P (foldl f s xs)"
  using assms by (induction xs arbitrary: s) auto

lemma funpow_invariant:
  assumes "P s" and "\<And>s. P s \<Longrightarrow> P (f s)"
  shows "P ((f ^^ n) s)"
  using assms by (induction n) auto

lemma map_length_transfer:
  "map length (transfer talus center_h y x world n) = map length world"
  by (cases n) (simp add: transfer_def Let_def map_length_set_cell)

lemma neighbors_interior:
  assumes "1 \<le> y" "y + 1 < h" "1 \<le> x" "x + 1 < wd" "n \<in> set (neighbors y x)"
  shows "fst n < h" "snd n < wd" "n \<noteq> (y, x)"
  using assms by (auto simp add: neighbors_def)

subsection \<open>The loops, with an invariant\<close>

text \<open>
  Whatever holds of the array on entry, and is kept by every run of the innermost
  loop's body with an interior centre and one of its four neighbours, holds on
  return. The lengths of the rows never change.
\<close>

lemma erosion_invariant:
  assumes sh: "shape w0 = (h, wd)"
    and P0: "P w0"
    and step: "\<And>w y x n center_h. map length w = map length w0 \<Longrightarrow> P w \<Longrightarrow>
        1 \<le> y \<Longrightarrow> y + 1 < h \<Longrightarrow> 1 \<le> x \<Longrightarrow> x + 1 < wd \<Longrightarrow> n \<in> set (neighbors y x) \<Longrightarrow>
        P (transfer talus center_h y x w n)"
  shows "P (apply_thermal_erosion w0 iterations talus)"
proof -
  let ?I = "\<lambda>w. map length w = map length w0 \<and> P w"
  have cell_step: "?I (erode_cell talus y w x)"
    if "?I w" "1 \<le> y" "y + 1 < h" "1 \<le> x" "x + 1 < wd" for w y x
    unfolding erode_cell_def Let_def
  proof (rule foldl_invariant [where P = ?I])
    show "?I w" by (rule that(1))
  next
    fix s n assume "n \<in> set (neighbors y x)" "?I s"
    then show "?I (transfer talus (cell w y x) y x s n)"
      using that(2-5) by (simp add: map_length_transfer step)
  qed
  have row_step: "?I (erode_row talus wd w y)" if "?I w" "1 \<le> y" "y + 1 < h" for w y
    unfolding erode_row_def
  proof (rule foldl_invariant [where P = ?I])
    show "?I w" by (rule that(1))
  next
    fix s x assume "x \<in> set [1 ..< wd - 1]" "?I s"
    then show "?I (erode_cell talus y s x)"
      using that(2,3) by (intro cell_step) auto
  qed
  have sweep_step: "?I (sweep talus h wd w)" if "?I w" for w
    unfolding sweep_def
  proof (rule foldl_invariant [where P = ?I])
    show "?I w" by (rule that)
  next
    fix s y assume "y \<in> set [1 ..< h - 1]" "?I s"
    then show "?I (erode_row talus wd s y)"
      by (intro row_step) auto
  qed
  have "?I w0" using P0 by simp
  then have "?I ((sweep talus h wd ^^ nat iterations) w0)"
    using sweep_step by (rule funpow_invariant [where P = ?I])
  moreover have "apply_thermal_erosion w0 iterations talus = (sweep talus h wd ^^ nat iterations) w0"
    unfolding apply_thermal_erosion_def sh by simp
  ultimately show ?thesis by simp
qed

text \<open>The erosion keeps the lengths of the rows.\<close>

lemma map_length_erosion: "map length (apply_thermal_erosion w i t) = map length w"
proof -
  obtain h wd where sh: "shape w = (h, wd)" by (cases "shape w")
  show ?thesis
    by (rule erosion_invariant [where P = "\<lambda>w'. map length w' = map length w", OF sh])
      (simp_all add: map_length_transfer)
qed

lemma set_cell_inside:
  assumes "ny < length w" "nx < length (w ! ny)"
  shows "ny < length (set_cell w y x v) \<and> nx < length (set_cell w y x v ! ny)"
proof -
  have m: "map length (set_cell w y x v) = map length w" by (rule map_length_set_cell)
  show ?thesis
    using same_lengths_row(1) [OF m assms(1)] same_lengths_row(2) [OF m assms(1)] assms by simp
qed


lemma interior_inside:
  assumes r: "rect w0" and sh: "shape w0 = (h, wd)" and m: "map length w = map length w0"
    and "y < h" "x < wd"
  shows "y < length w \<and> x < length (w ! y)"
proof -
  have h: "length w0 = h" using sh by (simp add: shape_def)
  then have y0: "y < length w0" using assms by simp
  have "length (w0 ! y) = wd" using r sh \<open>y < h\<close> by (rule rect_row_length)
  then show ?thesis
    using same_lengths_row(1) [OF m y0] same_lengths_row(2) [OF m y0] y0 \<open>x < wd\<close> by simp
qed

lemma cell_transfer:
  assumes "y < length w" "x < length (w ! y)" "ny < length w" "nx < length (w ! ny)"
    and "(ny, nx) \<noteq> (y, x)"
  shows "cell (transfer talus center_h y x w (ny, nx)) b a =
     (if center_h - cell w ny nx > talus then
        (if (b, a) = (y, x) then cell w y x - (center_h - cell w ny nx) / 4
         else if (b, a) = (ny, nx) then cell w ny nx + (center_h - cell w ny nx) / 4
         else cell w b a)
      else cell w b a)"
proof (cases "center_h - cell w ny nx > talus")
  case False
  then show ?thesis by (simp add: transfer_def)
next
  case True
  define m where "m = (center_h - cell w ny nx) / 4"
  define w1 where "w1 = set_cell w y x (cell w y x - m)"
  have t: "transfer talus center_h y x w (ny, nx) = set_cell w1 ny nx (cell w1 ny nx + m)"
    using True by (simp add: transfer_def Let_def w1_def m_def)
  have c1: "cell w1 b' a' = (if b' = y \<and> a' = x then cell w y x - m else cell w b' a')" for b' a'
    unfolding w1_def using assms(1,2) by (rule cell_set_cell)
  have in1: "ny < length w1 \<and> nx < length (w1 ! ny)"
    unfolding w1_def using assms(3,4) by (rule set_cell_inside)
  then have "cell (set_cell w1 ny nx (cell w1 ny nx + m)) b a =
      (if b = ny \<and> a = nx then cell w1 ny nx + m else cell w1 b a)"
    by (simp add: cell_set_cell)
  then show ?thesis using t True assms(5) by (auto simp add: c1 m_def)
qed

lemmas erosion_eval = apply_thermal_erosion_def shape_def sweep_def erode_row_def erode_cell_def
  neighbors_def transfer_def cell_def set_cell_def Let_def

subsection \<open>The boundary ring\<close>

text \<open>
  C1, as the code has it. The erosion visits interior cells only, as centres, but each
  centre gives material to its four neighbours, and the neighbours of the outermost
  interior cells are cells of the boundary ring. A ring cell is therefore never a
  source: with a talus threshold that is not negative its value never decreases, and
  the four corner cells, which no interior cell has as a neighbour, hold exactly the
  values they held on entry, for every threshold and every iteration count.
\<close>

theorem erosion_boundary_ring:
  assumes r: "rect world" and sh: "shape world = (height, width)"
    and yx: "y < height" "x < width"
    and ring: "y = 0 \<or> y = height - 1 \<or> x = 0 \<or> x = width - 1"
  shows "(0 \<le> talus \<longrightarrow> cell world y x \<le> cell (apply_thermal_erosion world iterations talus) y x) \<and>
         ((y = 0 \<or> y = height - 1) \<and> (x = 0 \<or> x = width - 1) \<longrightarrow>
            cell (apply_thermal_erosion world iterations talus) y x = cell world y x)"
proof (intro conjI impI)
  assume t: "0 \<le> talus"
  show "cell world y x \<le> cell (apply_thermal_erosion world iterations talus) y x"
  proof (rule erosion_invariant [where P = "\<lambda>w. cell world y x \<le> cell w y x", OF sh])
    show "cell world y x \<le> cell world y x" ..
  next
    fix w cy cx n center_h
    assume m: "map length w = map length world" and P: "cell world y x \<le> cell w y x"
      and i: "1 \<le> cy" "cy + 1 < height" "1 \<le> cx" "cx + 1 < width" and n: "n \<in> set (neighbors cy cx)"
    obtain ny nx where nn: "n = (ny, nx)" by (cases n)
    have c: "cy < height" "cx < width" using i by simp_all
    have d: "ny < height" "nx < width" "(ny, nx) \<noteq> (cy, cx)"
      using neighbors_interior [OF i n] nn by simp_all
    have ne: "(y, x) \<noteq> (cy, cx)" using ring i by auto
    have "cell w y x \<le> cell (transfer talus center_h cy cx w (ny, nx)) y x"
      using interior_inside [OF r sh m c] interior_inside [OF r sh m d(1,2)] d(3) ne t
      by (auto simp add: cell_transfer)
    then show "cell world y x \<le> cell (transfer talus center_h cy cx w n) y x"
      using P nn by simp
  qed
next
  assume corner: "(y = 0 \<or> y = height - 1) \<and> (x = 0 \<or> x = width - 1)"
  show "cell (apply_thermal_erosion world iterations talus) y x = cell world y x"
  proof (rule erosion_invariant [where P = "\<lambda>w. cell w y x = cell world y x", OF sh])
    show "cell world y x = cell world y x" ..
  next
    fix w cy cx n center_h
    assume m: "map length w = map length world" and P: "cell w y x = cell world y x"
      and i: "1 \<le> cy" "cy + 1 < height" "1 \<le> cx" "cx + 1 < width" and n: "n \<in> set (neighbors cy cx)"
    obtain ny nx where nn: "n = (ny, nx)" by (cases n)
    have c: "cy < height" "cx < width" using i by simp_all
    have d: "ny < height" "nx < width" "(ny, nx) \<noteq> (cy, cx)"
      using neighbors_interior [OF i n] nn by simp_all
    have ne: "(y, x) \<noteq> (cy, cx)" using ring i by auto
    have ne2: "(y, x) \<noteq> (ny, nx)" using corner i n nn by (auto simp add: neighbors_def)
    have "cell (transfer talus center_h cy cx w (ny, nx)) y x = cell w y x"
      using interior_inside [OF r sh m c] interior_inside [OF r sh m d(1,2)] d(3) ne ne2
      by (auto simp add: cell_transfer)
    then show "cell (transfer talus center_h cy cx w n) y x = cell world y x"
      using P nn by simp
  qed
qed

text \<open>On the 3 by 3 grid with a single raised centre: an edge cell and a corner.\<close>

theorem erosion_boundary_ring_witness:
  "cell peak_grid 1 0 \<le> cell (apply_thermal_erosion peak_grid 1 0) 1 0 \<and>
   cell (apply_thermal_erosion peak_grid 1 0) 0 0 = cell peak_grid 0 0"
proof -
  have r: "rect peak_grid" and sh: "shape peak_grid = (3, 3)"
    by (simp_all add: rect_def shape_def peak_grid_def)
  show ?thesis
    using erosion_boundary_ring [OF r sh, of 1 0 0 1] erosion_boundary_ring [OF r sh, of 0 0 0 1]
    by simp
qed

text \<open>
  The ring is not a fixed boundary: one sweep over the same grid with threshold 0
  moves a quarter of the centre's height into the left edge cell.
\<close>

theorem erosion_changes_boundary_counterexample:
  "cell peak_grid 1 0 = 0 \<and> cell (apply_thermal_erosion peak_grid 1 0) 1 0 = 1 / 4"
  by (simp add: peak_grid_def erosion_eval)

subsection \<open>Conservation of the sum\<close>



subsection \<open>One transfer and one sweep\<close>

text \<open>
  One sweep of the in-place erosion can widen the difference between two adjacent
  interior cells that exceeded the threshold: in the ridge grid the pair at columns
  2 and 3 of row 1 differs by 1 before the sweep and by 5/2 after it, because the
  left cell of the pair first receives material from its own left neighbour.
\<close>

theorem sweep_increases_difference_counterexample:
  "cell ridge_grid 1 2 - cell ridge_grid 1 3 = 1 \<and>
   cell (apply_thermal_erosion ridge_grid 1 (1 / 2)) 1 2
     - cell (apply_thermal_erosion ridge_grid 1 (1 / 2)) 1 3 = 5 / 2"
  by (simp add: ridge_grid_def erosion_eval)

text \<open>
  C9, as the code has it. A single transfer, from a centre that still holds
  \<open>center_h\<close> to a neighbour lower by more than the threshold, moves a quarter of
  their difference and leaves the pair at exactly half of it.
\<close>

theorem transfer_halves_difference:
  assumes "y < length world" "x < length (world ! y)" "ny < length world" "nx < length (world ! ny)"
    and "(ny, nx) \<noteq> (y, x)"
    and "center_h = cell world y x"
    and "center_h - cell world ny nx > talus"
  shows "cell (transfer talus center_h y x world (ny, nx)) ny nx
           = cell world ny nx + (cell world y x - cell world ny nx) / 4 \<and>
         cell (transfer talus center_h y x world (ny, nx)) y x
           - cell (transfer talus center_h y x world (ny, nx)) ny nx
           = (cell world y x - cell world ny nx) / 2"
proof -
  let ?w = "transfer talus center_h y x world (ny, nx)"
  have c: "cell ?w y x = cell world y x - (cell world y x - cell world ny nx) / 4"
    using assms by (simp add: cell_transfer)
  have n: "cell ?w ny nx = cell world ny nx + (cell world y x - cell world ny nx) / 4"
    using assms by (auto simp add: cell_transfer)
  show ?thesis unfolding c n by (simp add: field_simps)
qed

theorem transfer_halves_difference_witness:
  "cell (transfer 0 1 1 1 peak_grid (1, 0)) 1 0 = 1 / 4 \<and>
   cell (transfer 0 1 1 1 peak_grid (1, 0)) 1 1 - cell (transfer 0 1 1 1 peak_grid (1, 0)) 1 0 = 1 / 2"
  using transfer_halves_difference [of 1 peak_grid 1 1 0 1 0]
  by (simp add: peak_grid_def cell_def)

subsection \<open>Iteration counts and grid sizes that do nothing\<close>


section \<open>Properties of the gradient noise\<close>

subsection \<open>Lattice cells, table lookups\<close>



lemma and_255_mod: "(k::int) AND 255 = k mod 256"
proof -
  have "k AND mask 8 = k mod 2 ^ 8" by (simp only: take_bit_eq_mask [symmetric] take_bit_eq_mod)
  then show ?thesis by (simp add: mask_eq_exp_minus_1)
qed

lemma lattice_index_range: "0 \<le> lattice_index x \<and> lattice_index x \<le> 255"
  by (simp add: lattice_index_def and_255_mod) 

lemma py_int_nonneg: "0 \<le> x \<Longrightarrow> py_int x = \<lfloor>x\<rfloor>"
  by (simp add: py_int_def)

lemma valid_table_nth:
  assumes "valid_table p" "0 \<le> i" "i < 512"
  shows "getitem p i = Some (p ! nat i) \<and> 0 \<le> p ! nat i \<and> p ! nat i \<le> 255"
proof -
  have len: "length p = 512" using assms(1) by (simp add: valid_table_def)
  have "p = take 256 p @ drop 256 p" by simp
  then have "set p = set (take 256 p) \<union> set (drop 256 p)" by (metis set_append)
  then have sp: "set p = {0 .. 255}" using assms(1) by (simp add: valid_table_def)
  have "p ! nat i \<in> set p" using assms(2,3) len by (intro nth_mem) simp
  then have "0 \<le> p ! nat i \<and> p ! nat i \<le> 255" using sp by simp
  moreover have "getitem p i = Some (p ! nat i)" using assms(2,3) len by (simp add: getitem_def)
  ultimately show ?thesis by simp
qed

lemma perlin_noise_valid:
  assumes "valid_table p"
  shows "\<exists>aa ab ba bb. perlin_noise x y p =
     Some (lerp (fade (lattice_offset y))
       (lerp (fade (lattice_offset x)) (grad aa (lattice_offset x) (lattice_offset y))
          (grad ba (lattice_offset x - 1) (lattice_offset y)))
       (lerp (fade (lattice_offset x)) (grad ab (lattice_offset x) (lattice_offset y - 1))
          (grad bb (lattice_offset x - 1) (lattice_offset y - 1))))"
proof -
  define xi yi where "xi = lattice_index x" and "yi = lattice_index y"
  have rx: "0 \<le> xi" "xi \<le> 255" and ry: "0 \<le> yi" "yi \<le> 255"
    using lattice_index_range [of x] lattice_index_range [of y] by (simp_all add: xi_def yi_def)
  define pxi pxi1 where "pxi = p ! nat xi" and "pxi1 = p ! nat (xi + 1)"
  have g1: "getitem p xi = Some pxi" "0 \<le> pxi" "pxi \<le> 255"
    using valid_table_nth [OF assms, of xi] rx by (simp_all add: pxi_def)
  have g2: "getitem p (xi + 1) = Some pxi1" "0 \<le> pxi1" "pxi1 \<le> 255"
    using valid_table_nth [OF assms, of "xi + 1"] rx by (simp_all add: pxi1_def)
  have aa: "getitem p (pxi + yi) = Some (p ! nat (pxi + yi))"
    using valid_table_nth [OF assms, of "pxi + yi"] g1 ry by simp
  have ab: "getitem p (pxi + yi + 1) = Some (p ! nat (pxi + yi + 1))"
    using valid_table_nth [OF assms, of "pxi + yi + 1"] g1 ry by simp
  have ba: "getitem p (pxi1 + yi) = Some (p ! nat (pxi1 + yi))"
    using valid_table_nth [OF assms, of "pxi1 + yi"] g2 ry by simp
  have bb: "getitem p (pxi1 + yi + 1) = Some (p ! nat (pxi1 + yi + 1))"
    using valid_table_nth [OF assms, of "pxi1 + yi + 1"] g2 ry by simp
  have "perlin_noise x y p =
     Some (lerp (fade (lattice_offset y))
       (lerp (fade (lattice_offset x)) (grad (p ! nat (pxi + yi)) (lattice_offset x) (lattice_offset y))
          (grad (p ! nat (pxi1 + yi)) (lattice_offset x - 1) (lattice_offset y)))
       (lerp (fade (lattice_offset x)) (grad (p ! nat (pxi + yi + 1)) (lattice_offset x) (lattice_offset y - 1))
          (grad (p ! nat (pxi1 + yi + 1)) (lattice_offset x - 1) (lattice_offset y - 1))))"
    unfolding perlin_noise_def Let_def xi_def [symmetric] yi_def [symmetric]
    by (simp add: g1(1) g2(1) aa ab ba bb)
  then show ?thesis by blast
qed




lemma grad_abs: "\<bar>grad h x y\<bar> \<le> \<bar>x\<bar> + \<bar>y\<bar>"
  unfolding grad_def Let_def by (simp split: if_splits) (intro conjI impI; arith)

lemma set_arange_256: "set (arange 256) = {0 .. 255}"
proof -
  have "int ` {0 ..< 256} = {0 ..< 256}" by (simp add: image_int_atLeastLessThan)
  also have "\<dots> = {0 .. 255 :: int}" by auto
  finally show ?thesis by (simp add: arange_def)
qed

lemma length_arange: "length (arange n) = n"
  by (simp add: arange_def)

lemma valid_table_twice:
  assumes "length q = 256" "set q = {0 .. 255}"
  shows "valid_table (q @ q)"
  using assms by (simp add: valid_table_def)


lemma getitem_identity_table:
  "0 \<le> i \<Longrightarrow> i < 256 \<Longrightarrow> getitem identity_table i = Some i"
proof -
  assume i: "0 \<le> i" "i < 256"
  then have n: "nat i < 256" by simp
  have "identity_table ! nat i = arange 256 ! nat i"
    using n by (simp add: identity_table_def nth_append length_arange)
  also have "\<dots> = i" using n i by (simp add: arange_def)
  finally show ?thesis using i by (simp add: getitem_def identity_table_def length_arange)
qed

lemma py_int_negative_fraction: "- 1 < x \<Longrightarrow> x < 0 \<Longrightarrow> py_int x = 0"
  unfolding py_int_def by (simp add: ceiling_eq_iff)

subsection \<open>Lattice points\<close>



subsection \<open>Negative coordinates\<close>

text \<open>
  For a coordinate that is not negative, truncation is the floor: the lattice index
  is \<open>floor x mod 256\<close> and the offset \<open>x - floor x\<close> lies in \<open>[0, 1)\<close>.
\<close>

lemma lattice_floor_nonneg:
  "0 \<le> x \<Longrightarrow> lattice_index x = \<lfloor>x\<rfloor> mod 256 \<and> lattice_offset x = x - of_int \<lfloor>x\<rfloor>"
  by (simp add: lattice_index_def lattice_offset_def py_int_def and_255_mod)

text \<open>
  For a negative coordinate that is not an integer, the offset is negative.
\<close>

lemma lattice_offset_negative:
  assumes "x < 0" "x \<notin> \<int>"
  shows "- 1 < lattice_offset x \<and> lattice_offset x < 0"
proof -
  have "x \<noteq> of_int \<lceil>x\<rceil>" using assms(2) by (metis Ints_of_int)
  moreover have "x \<le> of_int \<lceil>x\<rceil>" by (rule le_of_int_ceiling)
  ultimately have "x < of_int \<lceil>x\<rceil>" by linarith
  moreover have "of_int \<lceil>x\<rceil> < x + 1" by linarith
  ultimately show ?thesis using assms(1) by (simp add: lattice_offset_def py_int_def)
qed

text \<open>
  C3, at the coordinate \<open>-1/2\<close>. The code truncates toward zero: the lattice index
  is 0 and the offset is \<open>-1/2\<close>, outside \<open>[0, 1)\<close>, where flooring gives the index
  255 and the offset \<open>1/2\<close>.
\<close>

theorem lattice_truncates_negative:
  "lattice_index (- 1 / 2) = 0 \<and> lattice_offset (- 1 / 2) = - 1 / 2 \<and>
   \<lfloor>- 1 / 2 :: real\<rfloor> mod 256 = 255 \<and> (- 1 / 2 :: real) - of_int \<lfloor>- 1 / 2 :: real\<rfloor> = 1 / 2"
  by (simp add: lattice_index_def lattice_offset_def py_int_negative_fraction)

text \<open>
  C4, at \<open>x = 1/2\<close>, \<open>y = -3/4\<close> and the identity table (the generator calls the
  noise with \<open>x\<close> a scaled distance and \<open>y\<close> a scaled angle, which is negative
  on one half of the grid). The offset of \<open>y\<close> is \<open>-3/4\<close>, its weight
  \<open>fade (-3/4)\<close> is below \<open>-10\<close>, and the value is \<open>4807/2048\<close>, above 2.
\<close>

theorem perlin_noise_out_of_range:
  "perlin_noise (1 / 2) (- 3 / 4) identity_table = Some (4807 / 2048) \<and>
   (3 / 2 :: real) < 4807 / 2048"
proof -
  have i: "py_int (1 / 2) = 0" "py_int (- (3 / 4)) = 0"
    by (simp_all add: py_int_negative_fraction) (simp add: py_int_def)
  have "perlin_noise (1 / 2) (- 3 / 4) identity_table = Some (4807 / 2048)"
    by (simp add: perlin_noise_def lattice_index_def lattice_offset_def i Let_def
        getitem_identity_table fade_def lerp_def grad_def)
  then show ?thesis by simp
qed

subsection \<open>The bound where the offsets lie in the unit interval\<close>

text \<open>
  With both coordinates non-negative the offsets lie in \<open>[0, 1)\<close>, the weights in
  \<open>[0, 1]\<close>, and the noise in \<open>[-1, 1]\<close>.
\<close>

lemma fade_nonneg: "0 \<le> t \<Longrightarrow> 0 \<le> fade t"
proof -
  assume t: "0 \<le> t"
  have "t * (t * 6 - 15) + 10 = 6 * (t - 5 / 4)\<^sup>2 + 5 / 8"
    by (simp add: power2_eq_square algebra_simps)
  then have "0 \<le> t * (t * 6 - 15) + 10" by simp
  then show ?thesis unfolding fade_def using t by (intro mult_nonneg_nonneg)
qed

lemma fade_complement: "fade (1 - t) = 1 - fade t"
  by (simp add: fade_def algebra_simps)

lemma fade_le_one: "t \<le> 1 \<Longrightarrow> fade t \<le> 1"
  using fade_nonneg [of "1 - t"] by (simp add: fade_complement)

lemma fade_half_sign:
  assumes "0 \<le> t" "t \<le> 1"
  shows "0 \<le> (1 - 2 * t) * (1 - 2 * fade t)"
proof -
  have "(1 - 2 * t) * (1 - 2 * fade t) = (1 - 2 * t)\<^sup>2 * (6 * (t * (1 - t))\<^sup>2 + 2 * (t * (1 - t)) + 1)"
    by (simp add: fade_def power2_eq_square algebra_simps)
  moreover have "0 \<le> t * (1 - t)" using assms by simp
  ultimately show ?thesis by simp
qed

text \<open>The weighted offset \<open>(1 - u) t + u (1 - t)\<close> with \<open>u = fade t\<close> is at most a half.\<close>

lemma fade_mix_le_half:
  assumes "0 \<le> t" "t \<le> 1"
  shows "(1 - fade t) * t + fade t * (1 - t) \<le> 1 / 2"
proof -
  have "1 / 2 - ((1 - fade t) * t + fade t * (1 - t)) = (1 - 2 * t) * (1 - 2 * fade t) / 2"
    by (simp add: algebra_simps)
  then show ?thesis using fade_half_sign [OF assms] by simp
qed

lemma lerp_abs:
  assumes "0 \<le> t" "t \<le> 1" "\<bar>a\<bar> \<le> A" "\<bar>b\<bar> \<le> B"
  shows "\<bar>lerp t a b\<bar> \<le> (1 - t) * A + t * B"
proof -
  have "lerp t a b = (1 - t) * a + t * b" by (simp add: lerp_def algebra_simps)
  then have "\<bar>lerp t a b\<bar> \<le> \<bar>(1 - t) * a\<bar> + \<bar>t * b\<bar>" by (simp add: abs_triangle_ineq)
  also have "\<dots> = (1 - t) * \<bar>a\<bar> + t * \<bar>b\<bar>" using assms(1,2) by (simp add: abs_mult)
  also have "\<dots> \<le> (1 - t) * A + t * B"
    using assms by (intro add_mono mult_left_mono) simp_all
  finally show ?thesis .
qed

lemma noise_value_bound:
  assumes a: "0 \<le> a" "a \<le> 1" and b: "0 \<le> b" "b \<le> 1"
  shows "\<bar>lerp (fade b) (lerp (fade a) (grad aa a b) (grad ba (a - 1) b))
            (lerp (fade a) (grad ab a (b - 1)) (grad bb (a - 1) (b - 1)))\<bar> \<le> 1"
proof -
  define u v where "u = fade a" and "v = fade b"
  have u: "0 \<le> u" "u \<le> 1" and v: "0 \<le> v" "v \<le> 1"
    using a b by (simp_all add: u_def v_def fade_nonneg fade_le_one)
  have g1: "\<bar>grad aa a b\<bar> \<le> a + b" using grad_abs [of aa a b] a b by simp
  have g2: "\<bar>grad ba (a - 1) b\<bar> \<le> (1 - a) + b" using grad_abs [of ba "a - 1" b] a b by simp
  have g3: "\<bar>grad ab a (b - 1)\<bar> \<le> a + (1 - b)" using grad_abs [of ab a "b - 1"] a b by simp
  have g4: "\<bar>grad bb (a - 1) (b - 1)\<bar> \<le> (1 - a) + (1 - b)"
    using grad_abs [of bb "a - 1" "b - 1"] a b by simp
  define Fa Fb where "Fa = (1 - u) * a + u * (1 - a)" and "Fb = (1 - v) * b + v * (1 - b)"
  have l1: "\<bar>lerp u (grad aa a b) (grad ba (a - 1) b)\<bar> \<le> Fa + b"
  proof -
    have "\<bar>lerp u (grad aa a b) (grad ba (a - 1) b)\<bar> \<le> (1 - u) * (a + b) + u * ((1 - a) + b)"
      using u g1 g2 by (rule lerp_abs)
    also have "\<dots> = Fa + b" by (simp add: Fa_def algebra_simps)
    finally show ?thesis .
  qed
  have l2: "\<bar>lerp u (grad ab a (b - 1)) (grad bb (a - 1) (b - 1))\<bar> \<le> Fa + (1 - b)"
  proof -
    have "\<bar>lerp u (grad ab a (b - 1)) (grad bb (a - 1) (b - 1))\<bar>
        \<le> (1 - u) * (a + (1 - b)) + u * ((1 - a) + (1 - b))"
      using u g3 g4 by (rule lerp_abs)
    also have "\<dots> = Fa + (1 - b)" by (simp add: Fa_def algebra_simps)
    finally show ?thesis .
  qed
  have "\<bar>lerp v (lerp u (grad aa a b) (grad ba (a - 1) b))
            (lerp u (grad ab a (b - 1)) (grad bb (a - 1) (b - 1)))\<bar>
      \<le> (1 - v) * (Fa + b) + v * (Fa + (1 - b))"
    using v l1 l2 by (rule lerp_abs)
  also have "\<dots> = Fa + Fb" by (simp add: Fb_def algebra_simps)
  also have "\<dots> \<le> 1 / 2 + 1 / 2"
    unfolding Fa_def Fb_def u_def v_def
    by (intro add_mono fade_mix_le_half a b)
  finally show ?thesis by (simp add: u_def v_def)
qed

lemma lattice_offset_nonneg: "0 \<le> x \<Longrightarrow> 0 \<le> lattice_offset x \<and> lattice_offset x \<le> 1"
  unfolding lattice_offset_def py_int_def by simp linarith

lemma perlin_noise_bounded_nonneg:
  assumes "valid_table p" "0 \<le> x" "0 \<le> y"
  shows "\<exists>r. perlin_noise x y p = Some r \<and> \<bar>r\<bar> \<le> 1"
proof -
  obtain aa ab ba bb where "perlin_noise x y p =
     Some (lerp (fade (lattice_offset y))
       (lerp (fade (lattice_offset x)) (grad aa (lattice_offset x) (lattice_offset y))
          (grad ba (lattice_offset x - 1) (lattice_offset y)))
       (lerp (fade (lattice_offset x)) (grad ab (lattice_offset x) (lattice_offset y - 1))
          (grad bb (lattice_offset x - 1) (lattice_offset y - 1))))"
    using perlin_noise_valid [OF assms(1)] by blast
  then show ?thesis
    using noise_value_bound [of "lattice_offset x" "lattice_offset y" aa ba ab bb]
      lattice_offset_nonneg [OF assms(2)] lattice_offset_nonneg [OF assms(3)]
    by simp
qed

lemma perlin_noise_valid_ex: "valid_table p \<Longrightarrow> \<exists>r. perlin_noise x y p = Some r"
  using perlin_noise_valid [of p x y] by blast

section \<open>Properties of the permutation table\<close>


lemma build_perm_table_Some:
  assumes "0 \<le> seed" "seed < 2 ^ 32"
    and "mset (mt_shuffle seed (arange 256)) = mset (arange 256)"
  shows "build_perm_table mt_shuffle seed
       = Some (mt_shuffle seed (arange 256) @ mt_shuffle seed (arange 256)) \<and>
     valid_table (mt_shuffle seed (arange 256) @ mt_shuffle seed (arange 256))"
proof -
  define p where "p = mt_shuffle seed (arange 256)"
  have len: "length p = 256"
    using mset_eq_length [OF assms(3)] by (simp add: p_def length_arange)
  have st: "set p = {0 .. 255}"
    using mset_eq_setD [OF assms(3)] by (simp add: p_def set_arange_256)
  have "build_perm_table mt_shuffle seed = Some (p @ p)"
    using assms(1,2) by (simp add: build_perm_table_def RandomState_def p_def Let_def)
  moreover have "valid_table (p @ p)" using len st by (rule valid_table_twice)
  ultimately show ?thesis by (simp add: p_def)
qed




section \<open>Properties of the island falloff\<close>

lemma falloff_base_le_one:
  "max 0 ((d - ISLAND_FALLOFF_START) / (1 - ISLAND_FALLOFF_START)) \<le> 1 \<longleftrightarrow> d \<le> 1"
  by (simp add: ISLAND_FALLOFF_START_def field_simps)

lemma falloff_map_sign: "0 \<le> falloff_map d \<longleftrightarrow> d \<le> 1"
proof -
  define b where "b = max 0 ((d - ISLAND_FALLOFF_START) / (1 - ISLAND_FALLOFF_START))"
  have b0: "0 \<le> b" by (simp add: b_def)
  have k: "0 < ISLAND_FALLOFF_STRENGTH" by (simp add: ISLAND_FALLOFF_STRENGTH_def)
  have "b powr ISLAND_FALLOFF_STRENGTH \<le> 1 \<longleftrightarrow> b \<le> 1"
  proof
    assume "b \<le> 1"
    then show "b powr ISLAND_FALLOFF_STRENGTH \<le> 1" using b0 k by (simp add: powr_le1)
  next
    assume le: "b powr ISLAND_FALLOFF_STRENGTH \<le> 1"
    show "b \<le> 1"
    proof (rule ccontr)
      assume "\<not> b \<le> 1"
      then have "1 < b" by simp
      then have "1 < b powr ISLAND_FALLOFF_STRENGTH" using k by (rule gr_one_powr)
      then show False using le by simp
    qed
  qed
  then show ?thesis
    using falloff_base_le_one [of d] by (simp add: falloff_map_def b_def)
qed

lemma falloff_map_le_one: "falloff_map d \<le> 1"
  by (simp add: falloff_map_def)

lemma corner_distance: "distance_from_center (- 1) (- 1) = sqrt 2"
  by (simp add: distance_from_center_def)

text \<open>
  In a grid of at least two rows and two columns the first coordinate on each axis
  is \<open>-1\<close>, so the distance of the first cell, a corner, is \<open>sqrt 2\<close>.
\<close>

lemma linspace_first:
  assumes "2 \<le> n"
  shows "\<exists>xs. linspace (- 1) 1 n = Some (- 1 # xs)"
proof -
  obtain k where k: "nat n = Suc k" using assms by (metis Suc_pred zero_less_nat_eq less_le_trans zero_less_numeral)
  have "[0 ..< nat n] = 0 # [1 ..< nat n]" unfolding k by (simp add: upt_conv_Cons)
  then show ?thesis using assms by (simp add: linspace_def)
qed

lemma corner_cell_distance:
  assumes "2 \<le> width" "2 \<le> height"
    and "linspace (- 1) 1 width = Some x_coords" "linspace (- 1) 1 height = Some y_coords"
  shows "cell (map (\<lambda>yy. map (\<lambda>xx. distance_from_center xx yy) x_coords) y_coords) 0 0 = sqrt 2"
  using linspace_first [OF assms(1)] linspace_first [OF assms(2)] assms(3,4)
  by (auto simp add: cell_def corner_distance)

text \<open>
  At a corner cell, where the distance from the centre is \<open>sqrt 2\<close>, the multiplier
  is negative.
\<close>

theorem falloff_negative_at_corner_counterexample:
  "falloff_map (distance_from_center (- 1) (- 1)) < 0"
  using falloff_map_sign [of "sqrt 2"] by (simp add: corner_distance)

text \<open>
  C5, as the code has it. The multiplier lies in \<open>[0, 1]\<close> for every distance up to
  1, and it is negative for every distance above 1: the code clips the base of the
  power from below only.
\<close>

theorem falloff_sign:
  "(d \<le> 1 \<longrightarrow> 0 \<le> falloff_map d \<and> falloff_map d \<le> 1) \<and> (1 < d \<longrightarrow> falloff_map d < 0)"
  using falloff_map_sign [of d] falloff_map_le_one [of d] by auto

theorem falloff_sign_witness:
  "0 \<le> falloff_map (1 / 2) \<and> falloff_map (1 / 2) \<le> 1 \<and> falloff_map (sqrt 2) < 0"
  using falloff_sign [of "1 / 2"] falloff_sign [of "sqrt 2"] by simp

section \<open>Properties of the normalizer\<close>

lemma fold_min_lower: "fold min vs (v::real) \<le> v \<and> (\<forall>w \<in> set vs. fold min vs v \<le> w)"
proof -
  have "fold min vs v = Min (set (v # vs))" by (rule Min.set_eq_fold [symmetric])
  then show ?thesis by simp
qed

lemma fold_max_upper: "v \<le> fold max vs (v::real) \<and> (\<forall>w \<in> set vs. w \<le> fold max vs v)"
proof -
  have "fold max vs v = Max (set (v # vs))" by (rule Max.set_eq_fold [symmetric])
  then show ?thesis by simp
qed

lemma flat_cells:
  assumes "amin a = Some m" "amax a = Some m" "row \<in> set a" "c \<in> set row"
  shows "c = m"
proof -
  obtain v vs where cc: "concat a = v # vs"
    using assms(1) by (auto simp add: amin_def split: list.splits)
  have lo: "fold min vs v = m" and hi: "fold max vs v = m"
    using assms(1,2) cc by (simp_all add: amin_def amax_def)
  have "c \<in> set (concat a)" using assms(3,4) by auto
  then have "c = v \<or> c \<in> set vs" using cc by simp
  then have "m \<le> c \<and> c \<le> m"
    using fold_min_lower [where vs = vs and v = v] fold_max_upper [where vs = vs and v = v] lo hi
    by auto
  then show ?thesis by simp
qed

text \<open>
  On the flat 2 by 2 grid the maximum equals the minimum and every cell of the result
  is not a number.
\<close>

theorem normalize_flat_counterexample:
  "amax flat_grid = amin flat_grid \<and> normalize flat_grid = Some [[NaN, NaN], [NaN, NaN]]"
  by (simp add: flat_grid_def normalize_def amin_def amax_def np_divide_def)

text \<open>
  C6, as the code has it. When the maximum of the grid equals its minimum, the
  normalizer has no fallback: it divides zero by zero in every cell, and its result
  is the grid of the same shape whose cells are all not a number.
\<close>

theorem normalize_flat_is_nan:
  assumes "amin terrain = Some m" "amax terrain = Some m"
  shows "normalize terrain = Some (map (map (\<lambda>v. NaN)) terrain)"
proof -
  have "map (\<lambda>v. np_divide (255 * (v - m)) (m - m)) row = map (\<lambda>v. NaN) row"
    if "row \<in> set terrain" for row
  proof (rule map_cong [OF refl])
    fix c assume "c \<in> set row"
    then have "c = m" using flat_cells [OF assms that] by simp
    then show "np_divide (255 * (c - m)) (m - m) = NaN" by (simp add: np_divide_def)
  qed
  then have "map (map (\<lambda>v. np_divide (255 * (v - m)) (m - m))) terrain
      = map (map (\<lambda>v. NaN)) terrain"
    by simp
  then show ?thesis using assms by (simp add: normalize_def)
qed

theorem normalize_flat_is_nan_witness:
  "normalize flat_grid = Some [[NaN, NaN], [NaN, NaN]]"
  using normalize_flat_is_nan [of flat_grid 1]
  by (simp add: flat_grid_def amin_def amax_def)

section \<open>Properties of the pipeline\<close>

subsection \<open>Zero-sized grids\<close>

lemma those_map_Some: "those (map (\<lambda>x. Some (f x)) xs) = Some (map f xs)"
  by (induction xs) simp_all











subsection \<open>Positive sizes\<close>

lemma linspace_length: "0 \<le> n \<Longrightarrow> \<exists>xs. linspace a b n = Some xs \<and> length xs = nat n"
  by (simp add: linspace_def)

lemma map_length_grid_map2:
  "map length a = map length b \<Longrightarrow> map length (grid_map2 f a b) = map length a"
proof (induction a arbitrary: b)
  case Nil
  then show ?case by (simp add: grid_map2_def)
next
  case (Cons r a)
  then obtain s b' where b: "b = s # b'" by (cases b) auto
  have "map length (grid_map2 f a b') = map length a"
    using Cons b by simp
  then show ?case using Cons.prems b by (simp add: grid_map2_def)
qed

lemma radial_noise_cell_Some:
  assumes "valid_table p"
  shows "radial_noise_cell width height scale strength p y x
     = Some (the (radial_noise_cell width height scale strength p y x))"
proof -
  have "\<exists>r. radial_noise_cell width height scale strength p y x = Some r"
    unfolding radial_noise_cell_def Let_def
    using perlin_noise_valid_ex [OF assms] by (metis bind.bind_lunit)
  then show ?thesis by auto
qed

lemma generate_radial_noise_Some:
  assumes "valid_table p" "0 \<le> width" "0 \<le> height"
  shows "\<exists>details. generate_radial_noise width height scale strength p = Some details \<and>
     map length details = replicate (nat height) (nat width)"
proof -
  let ?c = "\<lambda>y x. the (radial_noise_cell width height scale strength p y x)"
  have row: "those (map (radial_noise_cell width height scale strength p y) [0 ..< nat width])
      = Some (map (?c y) [0 ..< nat width])" for y
  proof -
    have "map (radial_noise_cell width height scale strength p y) [0 ..< nat width]
        = map (\<lambda>x. Some (?c y x)) [0 ..< nat width]"
      using radial_noise_cell_Some [OF assms(1)] by (intro map_cong refl)
    then show ?thesis by (simp only: those_map_Some)
  qed
  have "generate_radial_noise width height scale strength p
      = Some (map (\<lambda>y. map (?c y) [0 ..< nat width]) [0 ..< nat height])"
    using assms(2,3) by (simp add: generate_radial_noise_def row those_map_Some)
  moreover have "map length (map (\<lambda>y. map (?c y) [0 ..< nat width]) [0 ..< nat height])
      = replicate (nat height) (nat width)"
    by (simp add: map_replicate_const comp_def)
  ultimately show ?thesis by blast
qed


lemma final_terrain_Some:
  assumes rs: "0 \<le> seed" "seed < 2 ^ 32"
    and sh: "mset (mt_shuffle seed (arange 256)) = mset (arange 256)"
    and d: "0 \<le> width" "0 \<le> height"
  shows "\<exists>g. final_terrain mt_shuffle width height seed = Some g \<and>
     map length g = replicate (nat height) (nat width)"
proof -
  obtain xs where xs: "linspace (- 1) 1 width = Some xs" "length xs = nat width"
    using linspace_length [OF d(1)] by blast
  obtain ys where ys: "linspace (- 1) 1 height = Some ys" "length ys = nat height"
    using linspace_length [OF d(2)] by blast
  define t where "t = mt_shuffle seed (arange 256) @ mt_shuffle seed (arange 256)"
  have t: "build_perm_table mt_shuffle seed = Some t" "valid_table t"
    using build_perm_table_Some [where mt_shuffle = mt_shuffle and seed = seed, OF rs sh]
    by (simp_all add: t_def)
  obtain details where dt:
    "generate_radial_noise width height RADIAL_NOISE_SCALE RADIAL_NOISE_STRENGTH t = Some details"
    "map length details = replicate (nat height) (nat width)"
    using generate_radial_noise_Some [OF t(2) d] by blast
  define distance where "distance = map (\<lambda>yy. map (\<lambda>xx. distance_from_center xx yy) xs) ys"
  define main_cone where
    "main_cone = map (map (\<lambda>d. max 0 (VOLCANO_HEIGHT * (1 - (d / VOLCANO_RADIUS)\<^sup>2)))) distance"
  define caldera where
    "caldera = map (map (\<lambda>d. max 0 (CALDERA_DEPTH * (1 - (d / CALDERA_RADIUS)\<^sup>2)))) distance"
  define base where "base = grid_map2 (\<lambda>c k. max 0 (c - k)) main_cone caldera"
  define combined where "combined = grid_map2 (\<lambda>b d. b + b * d) base details"
  define eroded where "eroded = apply_thermal_erosion combined EROSION_ITERATIONS TALUS_ANGLE"
  define falloff where "falloff = map (map falloff_map) distance"
  let ?s = "replicate (nat height) (nat width)"
  have l_dist: "map length distance = ?s"
    by (simp add: distance_def xs(2) ys(2) [symmetric] map_replicate_const comp_def)
  have l_cone: "map length main_cone = ?s" and l_cald: "map length caldera = ?s"
    and l_fall: "map length falloff = ?s"
    using l_dist by (simp_all add: main_cone_def caldera_def falloff_def comp_def)
  have l_base: "map length base = ?s"
    unfolding base_def using l_cone l_cald by (simp add: map_length_grid_map2)
  have l_comb: "map length combined = ?s"
    unfolding combined_def using l_base dt(2) by (simp add: map_length_grid_map2)
  have l_erod: "map length eroded = ?s"
    unfolding eroded_def using l_comb by (simp add: map_length_erosion)
  have l_fin: "map length (grid_map2 (*) eroded falloff) = ?s"
    using l_erod l_fall by (simp add: map_length_grid_map2)
  have "final_terrain mt_shuffle width height seed = Some (grid_map2 (*) eroded falloff)"
    unfolding final_terrain_def xs(1) ys(1) t(1) dt(1) Let_def Option.bind.bind_lunit
      eroded_def combined_def base_def main_cone_def caldera_def falloff_def distance_def ..
  then show ?thesis using l_fin by blast
qed

lemma normalize_Some:
  assumes "concat g \<noteq> []"
  shows "\<exists>out. normalize g = Some out \<and> map length out = map length g"
proof -
  obtain v vs where c: "concat g = v # vs" using assms by (cases "concat g") auto
  show ?thesis by (simp add: normalize_def amin_def amax_def c comp_def)
qed

text \<open>
  With a positive width and height, and a generator that permutes, the pipeline
  returns a normalized grid of that height and width.
\<close>

lemma main_runs:
  assumes "0 \<le> seed" "seed < 2 ^ 32"
    and "mset (mt_shuffle seed (arange 256)) = mset (arange 256)"
    and "0 < width" "0 < height"
  shows "\<exists>out. main mt_shuffle width height seed = Some out \<and>
     map length out = replicate (nat height) (nat width)"
proof -
  obtain g where g: "final_terrain mt_shuffle width height seed = Some g"
    "map length g = replicate (nat height) (nat width)"
    using final_terrain_Some [where mt_shuffle = mt_shuffle and seed = seed
        and width = width and height = height, OF assms(1,2,3)] assms(4,5)
    by auto
  obtain n m where nm: "nat height = Suc n" "nat width = Suc m"
    using assms(4,5) by (metis Suc_pred zero_less_nat_eq)
  obtain r g' where r: "g = r # g'" "length r = Suc m"
    using g(2) nm by (cases g) auto
  then have "concat g \<noteq> []" by auto
  then obtain out where "normalize g = Some out" "map length out = map length g"
    using normalize_Some by blast
  then show ?thesis using g by (simp add: main_def)
qed

subsection \<open>Angles passed to the noise\<close>

text \<open>
  The second coordinate of the noise is the angle of the cell times the scale, which
  is negative for every cell above the centre row: one pixel up and one to the right
  of the centre it is \<open>-5 pi\<close>.
\<close>

lemma atan2_above_centre: "atan2 (- 1) 1 * RADIAL_NOISE_SCALE = - (5 * pi)"
  by (simp add: atan2_def RADIAL_NOISE_SCALE_def arctan_minus arctan_one)

end
